theory Spec2Isabelle
  imports Complex_Main "HOL-Library.Word"
begin

section \<open>Values of the script\<close>

text \<open>
  The development embeds \<^verbatim>\<open>scripts/update-employees.ts\<close>. A JavaScript string is a
  sequence of UTF-16 code units. A field declared \<^verbatim>\<open>f?: T\<close> is an option (\<open>None\<close> is
  \<^verbatim>\<open>undefined\<close>); a field declared \<^verbatim>\<open>f?: T | null\<close> has the three cases of
  \<open>nullable\<close>. Finite JavaScript numbers are taken as exact rationals: rounding error
  and overflow of binary floating point are outside the model. The non-finite numbers
  are kept, because \<^verbatim>\<open>toFloat2\<close> branches on them.
\<close>

type_synonym jsstring = "16 word list"

definition ascii :: "string \<Rightarrow> jsstring" where
  "ascii s = map (\<lambda>c. of_nat (of_char c)) s"

datatype 'a nullable = Undefined | Null | Value 'a

datatype jsnum = Fin rat | PosInf | NegInf | NaN

datatype numOrStr = NumV jsnum | StrV jsstring

datatype boolOrStr = BoolV bool | StrB jsstring

text \<open>The type \<^verbatim>\<open>Row\<close> of the source, lines 19 to 28.\<close>

record Row =
  email :: "jsstring option"
  employeeNum :: "jsstring option"
  firstName :: "jsstring option"
  lastName :: "jsstring option"
  department :: "jsstring nullable"
  role :: "jsstring nullable"
  hoursWorked :: "numOrStr nullable"
  active :: "boolOrStr nullable"

text \<open>The return type of \<^verbatim>\<open>clean\<close>, the NormalizedRecord of the specification.\<close>

record NormalizedRecord =
  email :: "jsstring option"
  employeeNum :: "jsstring option"
  firstName :: "jsstring option"
  lastName :: "jsstring option"
  department :: "jsstring option"
  role :: jsstring
  hoursWorked :: rat
  active :: bool

section \<open>String operations of the language\<close>

text \<open>
  \<^verbatim>\<open>String.prototype.trim\<close> removes the leading and trailing code units that are
  WhiteSpace or LineTerminator in ECMAScript. \<^verbatim>\<open>toLowerCase\<close> is modelled on the letters
  A to Z and leaves every other code unit as it is, so a cleaned email with letters
  outside ASCII may differ from the language's in the case of those letters only. The
  language maps no code unit outside ASCII to a letter of the words that \<^verbatim>\<open>toBool\<close>
  recognises, so the result of \<^verbatim>\<open>toBool\<close> does not depend on the rest of the case
  table.
\<close>

definition isStrWhiteSpace :: "16 word \<Rightarrow> bool" where
  "isStrWhiteSpace c =
     (c = 0x09 \<or> c = 0x0A \<or> c = 0x0B \<or> c = 0x0C \<or> c = 0x0D \<or> c = 0x20 \<or> c = 0xA0
      \<or> c = 0x1680 \<or> (0x2000 \<le> c \<and> c \<le> 0x200A) \<or> c = 0x2028 \<or> c = 0x2029
      \<or> c = 0x202F \<or> c = 0x205F \<or> c = 0x3000 \<or> c = 0xFEFF)"

definition trim :: "jsstring \<Rightarrow> jsstring" where
  "trim s = rev (dropWhile isStrWhiteSpace (rev (dropWhile isStrWhiteSpace s)))"

definition toLowerCase :: "jsstring \<Rightarrow> jsstring" where
  "toLowerCase s = map (\<lambda>c. if 0x41 \<le> c \<and> c \<le> 0x5A then c + 0x20 else c) s"

text \<open>Truthiness of an optional string: \<^verbatim>\<open>undefined\<close> and the empty string are falsy.\<close>

definition truthy :: "jsstring option \<Rightarrow> bool" where
  "truthy v = (case v of None \<Rightarrow> False | Some s \<Rightarrow> s \<noteq> [])"

text \<open>\<^verbatim>\<open>Array.prototype.join\<close> on an array of strings.\<close>

fun join :: "jsstring \<Rightarrow> jsstring list \<Rightarrow> jsstring" where
  "join sep [] = []"
| "join sep [x] = x"
| "join sep (x # y # ys) = x @ sep @ join sep (y # ys)"

section \<open>Coercions\<close>

fun toBool :: "boolOrStr nullable \<Rightarrow> bool option" where
  "toBool Undefined = None"
| "toBool Null = None"
| "toBool (Value (BoolV b)) = Some b"
| "toBool (Value (StrB v)) =
     (if v = [] then None
      else let s = toLowerCase (trim v) in
        if s \<in> set [ascii ''true'', ascii ''1'', ascii ''yes'', ascii ''y''] then Some True
        else if s \<in> set [ascii ''false'', ascii ''0'', ascii ''no'', ascii ''n'']
          then Some False
        else None)"

text \<open>\<^verbatim>\<open>Math.round\<close> on an exact number: the nearest integer, a tie going up.\<close>

definition Math_round :: "rat \<Rightarrow> int" where
  "Math_round x = \<lfloor>x + 1 / 2\<rfloor>"

definition round2 :: "rat \<Rightarrow> rat" where
  "round2 n = of_int (Math_round (n * 100)) / 100"

text \<open>
  \<^verbatim>\<open>toFloat2\<close>, lines 49 to 54. The conversion \<^verbatim>\<open>Number(v)\<close> of a string is a
  function of the language; it is the parameter \<open>Number\<close>, so that what follows holds
  for every way of reading a string as a number.
\<close>

fun toFloat2 :: "(jsstring \<Rightarrow> jsnum) \<Rightarrow> numOrStr nullable \<Rightarrow> rat option" where
  "toFloat2 Number Undefined = None"
| "toFloat2 Number Null = None"
| "toFloat2 Number (Value v) =
     (if v = StrV [] then None
      else case (case v of NumV n \<Rightarrow> n | StrV s \<Rightarrow> Number s) of
        Fin n \<Rightarrow> Some (round2 n)
      | _ \<Rightarrow> None)"

section \<open>Clean and validate\<close>

text \<open>
  \<^verbatim>\<open>x?.toString().trim()\<close> on an optional string, and the same on a string that may
  also be \<^verbatim>\<open>null\<close>: \<^verbatim>\<open>?.\<close> stops at both \<^verbatim>\<open>undefined\<close> and \<^verbatim>\<open>null\<close>. In
  \<^verbatim>\<open>clean\<close>, lines 66 to 77, \<^verbatim>\<open>x || d\<close> is \<open>d\<close> when \<open>x\<close> is \<^verbatim>\<open>undefined\<close> or the empty
  string, and \<^verbatim>\<open>x ?? d\<close> is \<open>d\<close> only when \<open>x\<close> is \<^verbatim>\<open>undefined\<close>.
\<close>

definition trimOpt :: "jsstring option \<Rightarrow> jsstring option" where
  "trimOpt v = map_option trim v"

fun trimNullable :: "jsstring nullable \<Rightarrow> jsstring option" where
  "trimNullable Undefined = None"
| "trimNullable Null = None"
| "trimNullable (Value s) = Some (trim s)"

definition clean :: "(jsstring \<Rightarrow> jsnum) \<Rightarrow> Row \<Rightarrow> NormalizedRecord" where
  "clean Number r =
    \<lparr> email = map_option toLowerCase (trimOpt (Row.email r)),
      employeeNum = trimOpt (Row.employeeNum r),
      firstName = trimOpt (Row.firstName r),
      lastName = trimOpt (Row.lastName r),
      department = (case trimNullable (Row.department r) of
                      Some d \<Rightarrow> if d \<noteq> [] then Some d else None
                    | None \<Rightarrow> None),
      role = (case trimNullable (Row.role r) of
                Some x \<Rightarrow> if x \<noteq> [] then x else ascii ''Staff''
              | None \<Rightarrow> ascii ''Staff''),
      hoursWorked = (case toFloat2 Number (Row.hoursWorked r) of Some h \<Rightarrow> h | None \<Rightarrow> 0),
      active = (case toBool (Row.active r) of Some b \<Rightarrow> b | None \<Rightarrow> True) \<rparr>"

definition validate :: "NormalizedRecord \<Rightarrow> jsstring list" where
  "validate c =
     (if \<not> truthy (email c) \<and> \<not> truthy (employeeNum c)
        then [ascii ''Missing unique key (email or employeeNum).''] else [])
     @ (if \<not> truthy (firstName c) then [ascii ''Missing firstName.''] else [])
     @ (if \<not> truthy (lastName c) then [ascii ''Missing lastName.''] else [])
     @ (if hoursWorked c < 0 then [ascii ''hoursWorked cannot be negative.''] else [])
     @ (if hoursWorked c > 24
        then [ascii ''hoursWorked per record > 24 is not allowed.''] else [])"

text \<open>
  The loop of \<^verbatim>\<open>main\<close>, lines 147 to 152: every row is cleaned and validated; a row
  with violations is recorded with its index and the joined messages, any other row is
  appended to the cleaned records.
\<close>

fun forEachRow ::
  "(jsstring \<Rightarrow> jsnum) \<Rightarrow> Row list \<Rightarrow> nat \<Rightarrow> NormalizedRecord list \<Rightarrow> (nat \<times> jsstring) list
     \<Rightarrow> NormalizedRecord list \<times> (nat \<times> jsstring) list" where
  "forEachRow Number [] i cleaned errors = (cleaned, errors)"
| "forEachRow Number (r # rs) i cleaned errors =
     (let c = clean Number r; errs = validate c in
      if errs \<noteq> [] then forEachRow Number rs (Suc i) cleaned (errors @ [(i, join (ascii ''; '') errs)])
      else forEachRow Number rs (Suc i) (cleaned @ [c]) errors)"

definition cleanValidate ::
  "(jsstring \<Rightarrow> jsnum) \<Rightarrow> Row list \<Rightarrow> NormalizedRecord list \<times> (nat \<times> jsstring) list" where
  "cleanValidate Number rows = forEachRow Number rows 0 [] []"

section \<open>Batching\<close>

text \<open>
  \<^verbatim>\<open>Array.prototype.slice\<close> with integer bounds: a negative bound counts from the end,
  and both bounds are clamped to the array.
\<close>

definition slice :: "'a list \<Rightarrow> int \<Rightarrow> int \<Rightarrow> 'a list" where
  "slice arr start fin =
     (let len = int (length arr);
          k = (if start < 0 then max (len + start) 0 else min start len);
          final = (if fin < 0 then max (len + fin) 0 else min fin len)
      in take (nat (final - k)) (drop (nat k) arr))"

text \<open>
  \<^verbatim>\<open>toBatches\<close>, lines 89 to 93. The loop need not end, so it is a partial function:
  \<open>None\<close> is the loop that runs forever. The batch size is an integer.
\<close>

partial_function (option) toBatches_loop ::
  "'a list \<Rightarrow> int \<Rightarrow> int \<Rightarrow> 'a list list \<Rightarrow> 'a list list option" where
  "toBatches_loop arr sz i out =
     (if i < int (length arr) then toBatches_loop arr sz (i + sz) (out @ [slice arr i (i + sz)])
      else Some out)"

declare toBatches_loop.simps [code]

definition toBatches :: "'a list \<Rightarrow> int \<Rightarrow> 'a list list option" where
  "toBatches arr sz = toBatches_loop arr sz 0 []"

section \<open>Weekly summary\<close>

datatype status = PASS | WARN | FAIL

record WeeklyEntry =
  key :: "jsstring option"
  total_hours :: rat
  expected_hours :: rat
  delta :: rat
  status :: status

text \<open>
  A JavaScript \<^verbatim>\<open>Map\<close> keeps its keys in the order of their first insertion: an
  association list in which \<^verbatim>\<open>set\<close> overwrites in place or appends.
\<close>

fun mapSet :: "('k \<times> 'v) list \<Rightarrow> 'k \<Rightarrow> 'v \<Rightarrow> ('k \<times> 'v) list" where
  "mapSet [] k v = [(k, v)]"
| "mapSet ((k', v') # m) k v = (if k' = k then (k, v) # m else (k', v') # mapSet m k v)"

text \<open>
  The key \<^verbatim>\<open>r.email || r.employeeNum!\<close>: the email when it is truthy, else whatever
  the employee number is (\<^verbatim>\<open>!\<close> is erased by the compiler).
\<close>

definition identityKey :: "NormalizedRecord \<Rightarrow> jsstring option" where
  "identityKey r = (if truthy (email r) then email r else employeeNum r)"

definition addHours ::
  "NormalizedRecord \<Rightarrow> (jsstring option \<times> rat) list \<Rightarrow> (jsstring option \<times> rat) list" where
  "addHours r m =
     mapSet m (identityKey r)
       ((case map_of m (identityKey r) of Some t \<Rightarrow> t | None \<Rightarrow> 0) + hoursWorked r)"

definition totals :: "NormalizedRecord list \<Rightarrow> (jsstring option \<times> rat) list" where
  "totals rows = fold addHours rows []"

definition statusOf :: "rat \<Rightarrow> rat \<Rightarrow> status" where
  "statusOf EXPECTED tot =
     (if tot = 0 then FAIL
      else if 0 < tot \<and> tot < EXPECTED then WARN
      else PASS)"

definition entryOf :: "rat \<Rightarrow> jsstring option \<times> rat \<Rightarrow> WeeklyEntry" where
  "entryOf EXPECTED kt =
     \<lparr> key = fst kt,
       total_hours = round2 (snd kt),
       expected_hours = EXPECTED,
       delta = round2 (snd kt - EXPECTED),
       status = statusOf EXPECTED (snd kt) \<rparr>"

text \<open>
  \<^verbatim>\<open>weeklySummary\<close>, lines 97 to 125, with \<^verbatim>\<open>EXPECTED_WEEKLY_HOURS\<close> as a parameter.
  The entries are what it returns; the file it writes and the file's time-stamped name
  are not modelled.
\<close>

definition weeklySummary :: "rat \<Rightarrow> NormalizedRecord list \<Rightarrow> WeeklyEntry list" where
  "weeklySummary EXPECTED rows = map (entryOf EXPECTED) (totals rows)"

section \<open>The store\<close>

text \<open>
  Modelled from the spec: the schema of the stored employee is not in the source. The
  specification lists the fields of a stored row; the email is always written as a
  string, and the employeeNum may be \<^verbatim>\<open>null\<close>. The store is the list of its rows in
  the order of their creation.
\<close>

record Employee =
  email :: jsstring
  employeeNum :: "jsstring option"
  firstName :: jsstring
  lastName :: jsstring
  department :: "jsstring option"
  role :: jsstring
  hoursWorked :: rat
  active :: bool

text \<open>
  Modelled from the spec: the errors of the store are not in the source. A write can
  break a unique key, and a call can lack a required argument.
\<close>

datatype storeError = UniqueConstraint | MissingArgument

text \<open>
  Modelled from the spec: the unique keys of the store are declared in the schema,
  which is not in the source. The specification says that email and employeeNum are
  each unique; an employeeNum that is \<^verbatim>\<open>null\<close> constrains nothing.
\<close>

definition conflicts :: "Employee \<Rightarrow> Employee \<Rightarrow> bool" where
  "conflicts a b =
     (Employee.email a = Employee.email b
      \<or> (Employee.employeeNum a = Employee.employeeNum b \<and> Employee.employeeNum a \<noteq> None))"

text \<open>The first element that satisfies \<open>P\<close> is replaced by \<open>y\<close>.\<close>

fun replaceFirst :: "('a \<Rightarrow> bool) \<Rightarrow> 'a \<Rightarrow> 'a list \<Rightarrow> 'a list" where
  "replaceFirst P y [] = []"
| "replaceFirst P y (x # xs) = (if P x then y # xs else x # replaceFirst P y xs)"

text \<open>
  Modelled from the spec: the upsert of one row by a unique key is an operation of the
  store's client, which the source calls and does not define. The row is looked up by
  the key \<open>wh\<close>. A row found is updated by \<open>upd\<close>; otherwise the row \<open>cre\<close> is created,
  which needs every required field. A write that breaks a unique key fails and leaves
  the store as it was.
\<close>

definition upsertRow ::
  "(Employee \<Rightarrow> bool) \<Rightarrow> (Employee \<Rightarrow> Employee) \<Rightarrow> Employee option \<Rightarrow> Employee list
     \<Rightarrow> storeError + Employee list" where
  "upsertRow wh upd cre store =
     (case find wh store of
        Some old \<Rightarrow>
          (let new = upd old in
           if list_ex (conflicts new) (remove1 old store) then Inl UniqueConstraint
           else Inr (replaceFirst wh new store))
      | None \<Rightarrow>
          (case cre of
             None \<Rightarrow> Inl MissingArgument
           | Some new \<Rightarrow>
               if list_ex (conflicts new) store then Inl UniqueConstraint
               else Inr (store @ [new])))"

text \<open>
  Modelled from the spec: a field of the update data that is \<^verbatim>\<open>undefined\<close> keeps the
  stored value.
\<close>

definition orKeep :: "'a option \<Rightarrow> 'a \<Rightarrow> 'a" where
  "orKeep v old = (case v of None \<Rightarrow> old | Some x \<Rightarrow> x)"

text \<open>
  The create data of both paths, lines 180 to 189 and 204 to 213. The store refuses a
  row without its required names.
\<close>

definition createData ::
  "jsstring \<Rightarrow> jsstring option \<Rightarrow> NormalizedRecord \<Rightarrow> Employee option" where
  "createData e n c =
     (case (NormalizedRecord.firstName c, NormalizedRecord.lastName c) of
        (Some f, Some l) \<Rightarrow>
          Some \<lparr> email = e, employeeNum = n, firstName = f, lastName = l,
                 department = NormalizedRecord.department c, role = NormalizedRecord.role c,
                 hoursWorked = NormalizedRecord.hoursWorked c, active = NormalizedRecord.active c \<rparr>
      | _ \<Rightarrow> None)"

text \<open>
  The two upserts of \<^verbatim>\<open>main\<close>, lines 168 to 215. The test \<^verbatim>\<open>if (c.email)\<close> takes the
  email path with the email \<open>e\<close> when it is truthy. On the email path the update writes
  \<^verbatim>\<open>employeeNum: c.employeeNum ?? undefined\<close> and the create
  \<^verbatim>\<open>employeeNum: c.employeeNum ?? null\<close>; on the employeeNum path the update writes
  \<^verbatim>\<open>email: c.email ?? undefined\<close> and the create
  \<^verbatim>\<open>email: c.email ?? `${c.employeeNum!}@placeholder.local`\<close>.
\<close>

definition upsertEmployee :: "NormalizedRecord \<Rightarrow> Employee list \<Rightarrow> storeError + Employee list" where
  "upsertEmployee c store =
     (case (if truthy (NormalizedRecord.email c) then NormalizedRecord.email c else None) of
        Some e \<Rightarrow>
          upsertRow (\<lambda>r. Employee.email r = e)
            (\<lambda>r. r\<lparr> firstName := orKeep (NormalizedRecord.firstName c) (Employee.firstName r),
                    lastName := orKeep (NormalizedRecord.lastName c) (Employee.lastName r),
                    department := NormalizedRecord.department c,
                    role := NormalizedRecord.role c,
                    hoursWorked := NormalizedRecord.hoursWorked c,
                    active := NormalizedRecord.active c,
                    employeeNum := (case NormalizedRecord.employeeNum c of
                                      None \<Rightarrow> Employee.employeeNum r
                                    | Some n \<Rightarrow> Some n) \<rparr>)
            (createData e (NormalizedRecord.employeeNum c) c)
            store
      | None \<Rightarrow>
          (case NormalizedRecord.employeeNum c of
             None \<Rightarrow> Inl MissingArgument
           | Some n \<Rightarrow>
               upsertRow (\<lambda>r. Employee.employeeNum r = Some n)
                 (\<lambda>r. r\<lparr> firstName := orKeep (NormalizedRecord.firstName c) (Employee.firstName r),
                         lastName := orKeep (NormalizedRecord.lastName c) (Employee.lastName r),
                         department := NormalizedRecord.department c,
                         role := NormalizedRecord.role c,
                         hoursWorked := NormalizedRecord.hoursWorked c,
                         active := NormalizedRecord.active c,
                         email := orKeep (NormalizedRecord.email c) (Employee.email r) \<rparr>)
                 (createData (orKeep (NormalizedRecord.email c) (n @ ascii ''@placeholder.local''))
                    (Some n) c)
                 store))"

text \<open>
  Modelled from the spec: a transaction of the store is not in the source. One batch is
  one transaction, line 167: its upserts run in order, and the first failure undoes the
  batch.
\<close>

fun transaction :: "NormalizedRecord list \<Rightarrow> Employee list \<Rightarrow> storeError + Employee list" where
  "transaction [] store = Inr store"
| "transaction (c # cs) store =
     (case upsertEmployee c store of Inl e \<Rightarrow> Inl e | Inr s \<Rightarrow> transaction cs s)"

text \<open>
  The loop over the batches, lines 165 to 220. A failed batch ends the run with the
  store as the batches before it left it.
\<close>

fun upsertBatches ::
  "NormalizedRecord list list \<Rightarrow> Employee list \<Rightarrow> nat
     \<Rightarrow> (storeError \<times> Employee list) + (Employee list \<times> nat)" where
  "upsertBatches [] store success = Inr (store, success)"
| "upsertBatches (batch # bs) store success =
     (case transaction batch store of
        Inl e \<Rightarrow> Inl (e, store)
      | Inr s \<Rightarrow> upsertBatches bs s (success + length batch))"

section \<open>The run\<close>

record Report =
  cleaned :: "NormalizedRecord list"
  errors :: "(nat \<times> jsstring) list"
  success :: nat
  entries :: "WeeklyEntry list"
  pass :: nat
  warn :: nat
  fail :: nat

datatype runResult = Done "Employee list" Report | Aborted storeError "Employee list"

definition report :: "rat \<Rightarrow> NormalizedRecord list \<Rightarrow> (nat \<times> jsstring) list \<Rightarrow> nat \<Rightarrow> Report" where
  "report EXPECTED cl errs n =
     (let es = weeklySummary EXPECTED cl in
      \<lparr> cleaned = cl, errors = errs, success = n, entries = es,
        pass = length (filter (\<lambda>e. status e = PASS) es),
        warn = length (filter (\<lambda>e. status e = WARN) es),
        fail = length (filter (\<lambda>e. status e = FAIL) es) \<rparr>)"

text \<open>
  \<^verbatim>\<open>main\<close> from the parsed rows on, lines 143 to 230, with the environment
  (\<^verbatim>\<open>BATCH_SIZE\<close>, an integer, and \<^verbatim>\<open>EXPECTED_WEEKLY_HOURS\<close>, a finite number), the
  flag \<^verbatim>\<open>--dry-run\<close> and the store as arguments. \<open>None\<close> is a run that never ends;
  \<open>Aborted\<close> is the run that a store error ends with exit code 1, before any summary.
  The profile, the files written and the console lines are not modelled.
\<close>

definition main ::
  "(jsstring \<Rightarrow> jsnum) \<Rightarrow> int \<Rightarrow> rat \<Rightarrow> bool \<Rightarrow> Row list \<Rightarrow> Employee list \<Rightarrow> runResult option" where
  "main Number BATCH_SIZE EXPECTED dry rows store =
     (let cl = fst (cleanValidate Number rows); errs = snd (cleanValidate Number rows) in
      if \<not> dry \<and> cl \<noteq> [] then
        (case toBatches cl BATCH_SIZE of
           None \<Rightarrow> None
         | Some batches \<Rightarrow>
             (case upsertBatches batches store 0 of
                Inl (e, s) \<Rightarrow> Some (Aborted e s)
              | Inr (s, n) \<Rightarrow> Some (Done s (report EXPECTED cl errs n))))
      else Some (Done store (report EXPECTED cl errs 0)))"

section \<open>Rows and stored employees of the examples\<close>

text \<open>
  A row with the given email, employee number and hours and the names A and B, and a
  stored employee with the given keys. No string of the examples reads as a number, so
  on them \<^verbatim>\<open>Number\<close> is \<^verbatim>\<open>NaN\<close>.
\<close>

definition exampleRow :: "string option \<Rightarrow> string option \<Rightarrow> rat \<Rightarrow> Row" where
  "exampleRow e n h =
     \<lparr> Row.email = map_option ascii e, employeeNum = map_option ascii n,
       firstName = Some (ascii ''A''), lastName = Some (ascii ''B''),
       department = Undefined, role = Undefined,
       hoursWorked = Value (NumV (Fin h)), active = Undefined \<rparr>"

definition exampleEmployee :: "string \<Rightarrow> string option \<Rightarrow> Employee" where
  "exampleEmployee e n =
     \<lparr> Employee.email = ascii e, employeeNum = map_option ascii n,
       firstName = ascii ''A'', lastName = ascii ''B'', department = None,
       role = ascii ''Staff'', hoursWorked = 0, active = True \<rparr>"

definition noNumber :: "jsstring \<Rightarrow> jsnum" where
  "noNumber s = NaN"


text \<open>Rows of three employees: one reaches 40 hours, one 39.99, one has none.\<close>

definition weekRows :: "Row list" where
  "weekRows =
     [exampleRow (Some ''a@x.com'') None 20, exampleRow (Some ''b@x.com'') None 20,
      exampleRow None (Some ''7'') 0, exampleRow (Some ''a@x.com'') None 20,
      exampleRow (Some ''b@x.com'') None (1999 / 100)]"

section \<open>Predicates of the properties\<close>





section \<open>Batches: partition and termination\<close>

lemma slice_chunk:
  assumes "0 \<le> i" "i < int (length arr)" "1 \<le> sz"
  shows "slice arr i (i + sz) = take (nat sz) (drop (nat i) arr)"
  using assms by (auto simp: slice_def Let_def min_def)

lemma toBatches_loop_partition:
  assumes "1 \<le> sz" "0 \<le> i"
  shows "\<exists>bs. toBatches_loop arr sz i out = Some (out @ bs)
            \<and> concat bs = drop (nat i) arr
            \<and> (\<forall>b\<in>set bs. b \<noteq> [] \<and> int (length b) \<le> sz)
            \<and> (\<forall>k. Suc k < length bs \<longrightarrow> int (length (bs ! k)) = sz)
            \<and> (\<forall>k<length bs. bs ! k = take (nat sz) (drop (nat i + k * nat sz) arr))"
  using assms(2)
proof (induction "length arr - nat i" arbitrary: i out rule: less_induct)
  case less
  show ?case
  proof (cases "i < int (length arr)")
    case False
    then have "toBatches_loop arr sz i out = Some (out @ [])"
      by (subst toBatches_loop.simps) simp
    moreover from False less.prems have "drop (nat i) arr = []" by simp
    ultimately show ?thesis by (intro exI[of _ "[]"]) simp
  next
    case True
    define b where "b = take (nat sz) (drop (nat i) arr)"
    have sl: "slice arr i (i + sz) = b"
      using slice_chunk[OF less.prems True assms(1)] by (simp add: b_def)
    have step: "toBatches_loop arr sz i out = toBatches_loop arr sz (i + sz) (out @ [b])"
      using True sl by (subst toBatches_loop.simps) simp
    have smaller: "length arr - nat (i + sz) < length arr - nat i"
      using True less.prems assms(1) by linarith
    have nonneg: "0 \<le> i + sz" using less.prems assms(1) by simp
    from less.hyps[OF smaller nonneg, of "out @ [b]"]
    obtain bs where bs: "toBatches_loop arr sz (i + sz) (out @ [b]) = Some ((out @ [b]) @ bs)"
        "concat bs = drop (nat (i + sz)) arr"
        "\<forall>c\<in>set bs. c \<noteq> [] \<and> int (length c) \<le> sz"
        "\<forall>k. Suc k < length bs \<longrightarrow> int (length (bs ! k)) = sz"
        "\<forall>k<length bs. bs ! k = take (nat sz) (drop (nat (i + sz) + k * nat sz) arr)"
      by blast
    have nat_sum: "nat (i + sz) = nat sz + nat i"
      using less.prems assms(1) by linarith
    have b_ne: "b \<noteq> []" using True less.prems assms(1) by (simp add: b_def)
    have b_len: "int (length b) \<le> sz" using assms(1) by (simp add: b_def)
    have cc: "concat (b # bs) = drop (nat i) arr"
      using bs(2) by (simp add: b_def nat_sum drop_drop[symmetric] del: drop_drop)
    have full: "int (length b) = sz" if "bs \<noteq> []"
    proof -
      from that bs(3) have "concat bs \<noteq> []" by (cases bs) auto
      with bs(2) have "nat (i + sz) < length arr" by simp
      then show ?thesis using less.prems assms(1) by (simp add: b_def min_def) linarith
    qed
    have last: "\<forall>k. Suc k < length (b # bs) \<longrightarrow> int (length ((b # bs) ! k)) = sz"
    proof (intro allI impI)
      fix k assume k: "Suc k < length (b # bs)"
      show "int (length ((b # bs) ! k)) = sz"
      proof (cases k)
        case 0
        with k have "bs \<noteq> []" by auto
        with full 0 show ?thesis by simp
      next
        case (Suc j)
        with k bs(4) show ?thesis by simp
      qed
    qed
    have nth: "\<forall>k<length (b # bs). (b # bs) ! k = take (nat sz) (drop (nat i + k * nat sz) arr)"
    proof (intro allI impI)
      fix k assume k: "k < length (b # bs)"
      show "(b # bs) ! k = take (nat sz) (drop (nat i + k * nat sz) arr)"
      proof (cases k)
        case 0
        then show ?thesis by (simp add: b_def)
      next
        case (Suc j)
        have e: "nat (i + sz) + j * nat sz = nat i + k * nat sz"
          by (simp add: nat_sum Suc)
        from k Suc bs(5)
        have "(b # bs) ! k = take (nat sz) (drop (nat (i + sz) + j * nat sz) arr)"
          by simp
        then show ?thesis by (simp only: e)
      qed
    qed
    show ?thesis
      using step bs(1) cc b_ne b_len bs(3) last nth
      by (intro exI[of _ "b # bs"]) simp
  qed
qed

lemma toBatches_loop_diverges:
  assumes "toBatches_loop arr sz i out = Some y"
  shows "\<not> (sz \<le> 0 \<and> i \<le> 0 \<and> arr \<noteq> [])"
proof (rule toBatches_loop.raw_induct
    [where P = "\<lambda>arr sz i out y. \<not> (sz \<le> 0 \<and> i \<le> 0 \<and> arr \<noteq> [])", OF _ assms])
  fix loop :: "'a list \<Rightarrow> int \<Rightarrow> int \<Rightarrow> 'a list list \<Rightarrow> 'a list list option"
    and arr sz i out y
  assume ih: "\<And>arr sz i out y. loop arr sz i out = Some y \<Longrightarrow> \<not> (sz \<le> 0 \<and> i \<le> 0 \<and> arr \<noteq> [])"
    and eq: "(if i < int (length arr)
              then loop arr sz (i + sz) (out @ [slice arr i (i + sz)])
              else Some out) = Some y"
  show "\<not> (sz \<le> 0 \<and> i \<le> 0 \<and> arr \<noteq> [])"
  proof
    assume a: "sz \<le> 0 \<and> i \<le> 0 \<and> arr \<noteq> []"
    then have "i < int (length arr)" by (cases arr) auto
    with eq have "loop arr sz (i + sz) (out @ [slice arr i (i + sz)]) = Some y" by simp
    from ih[OF this] a show False by simp
  qed
qed

lemma toBatches_diverges: "arr \<noteq> [] \<Longrightarrow> sz \<le> 0 \<Longrightarrow> toBatches arr sz = None"
  using toBatches_loop_diverges[of arr sz 0 "[]"] by (cases "toBatches arr sz") (auto simp: toBatches_def)

lemma toBatches_chunks:
  assumes "1 \<le> sz"
  shows "\<exists>bs. toBatches arr sz = Some bs
           \<and> concat bs = arr
           \<and> (\<forall>b\<in>set bs. b \<noteq> [] \<and> int (length b) \<le> sz)
           \<and> (\<forall>k. Suc k < length bs \<longrightarrow> int (length (bs ! k)) = sz)
           \<and> (\<forall>k<length bs. bs ! k = take (nat sz) (drop (k * nat sz) arr))"
  using toBatches_loop_partition[OF assms, of 0 arr "[]"] by (simp add: toBatches_def)

text \<open>
  C4: for every list and every batch size of at least 1, \<^verbatim>\<open>toBatches\<close> returns; the
  batches concatenated in order are the list; every batch is non-empty and has at most
  the batch size elements; every batch but the last has exactly the batch size
  elements; and batch \<open>k\<close> is the contiguous slice that starts at \<open>k\<close> times the batch
  size.
\<close>

theorem toBatches_partition:
  assumes "1 \<le> sz"
  shows "\<exists>bs. toBatches arr sz = Some bs
           \<and> concat bs = arr
           \<and> (\<forall>b\<in>set bs. b \<noteq> [] \<and> int (length b) \<le> sz)
           \<and> (\<forall>k. Suc k < length bs \<longrightarrow> int (length (bs ! k)) = sz)
           \<and> (\<forall>k<length bs. bs ! k = take (nat sz) (drop (k * nat sz) arr))"
  using toBatches_chunks[OF assms, of arr] .

theorem toBatches_partition_witness:
  "(1::int) \<le> 2 \<and> toBatches [1, 2, 3, 4, 5 :: nat] 2 = Some [[1, 2], [3, 4], [5]]"
proof -
  have h: "(1::int) \<le> 2" by simp
  from toBatches_partition[OF h, of "[1, 2, 3, 4, 5 :: nat]"]
  obtain bs where bs: "toBatches [1, 2, 3, 4, 5 :: nat] 2 = Some bs"
    "\<forall>k<length bs. bs ! k = take (nat 2) (drop (k * nat 2) [1, 2, 3, 4, 5 :: nat])"
    "concat bs = [1, 2, 3, 4, 5 :: nat]" "\<forall>b\<in>set bs. b \<noteq> [] \<and> int (length b) \<le> 2"
    by blast
  have "toBatches [1, 2, 3, 4, 5 :: nat] 2 = Some [[1, 2], [3, 4], [5]]"
    by (simp add: toBatches_def toBatches_loop.simps slice_def)
  with h show ?thesis by simp
qed

lemma main_diverges:
  assumes "fst (cleanValidate N rows) \<noteq> []" "B \<le> 0"
  shows "main N B E False rows store = None"
  using toBatches_diverges[OF assms] assms(1) by (simp add: main_def Let_def)

lemma main_returns:
  assumes "1 \<le> B"
  shows "\<exists>r. main N B E dry rows store = Some r"
proof -
  from toBatches_chunks[OF assms, of "fst (cleanValidate N rows)"]
  obtain bs where "toBatches (fst (cleanValidate N rows)) B = Some bs" by blast
  then show ?thesis
    by (simp add: main_def Let_def split: sum.splits prod.splits)
qed

text \<open>
  C10: for every array and every batch size of at least 1 \<^verbatim>\<open>toBatches\<close> returns, and
  so does the run; for every non-empty array and every batch size of at most 0 it
  never returns, and neither does a run that is not dry and has an accepted record:
  the batch size is not checked, so that it is positive is a precondition.
\<close>

theorem toBatches_terminates_iff_positive:
  "(1 \<le> sz \<longrightarrow> (\<exists>bs. toBatches arr sz = Some bs))
   \<and> (arr \<noteq> [] \<and> sz \<le> 0 \<longrightarrow> toBatches arr sz = None)
   \<and> (1 \<le> sz \<longrightarrow> (\<exists>r. main N sz E dry rows store = Some r))
   \<and> (fst (cleanValidate N rows) \<noteq> [] \<and> sz \<le> 0 \<longrightarrow> main N sz E False rows store = None)"
proof (intro conjI impI)
  assume "1 \<le> sz"
  from toBatches_chunks[OF this, of arr] show "\<exists>bs. toBatches arr sz = Some bs" by blast
next
  assume "arr \<noteq> [] \<and> sz \<le> 0"
  then show "toBatches arr sz = None" by (simp add: toBatches_diverges)
next
  assume "1 \<le> sz"
  then show "\<exists>r. main N sz E dry rows store = Some r" by (rule main_returns)
next
  assume "fst (cleanValidate N rows) \<noteq> [] \<and> sz \<le> 0"
  then show "main N sz E False rows store = None" by (simp add: main_diverges)
qed

theorem toBatches_terminates_iff_positive_witness:
  "(1::int) \<le> 2 \<and> (\<exists>bs. toBatches [1, 2, 3 :: nat] 2 = Some bs)
   \<and> [1 :: nat] \<noteq> [] \<and> (0::int) \<le> 0 \<and> toBatches [1 :: nat] 0 = None
   \<and> (\<exists>r. main noNumber 2 40 False [exampleRow (Some ''a@x.com'') None 10] [] = Some r)
   \<and> fst (cleanValidate noNumber [exampleRow (Some ''a@x.com'') None 10]) \<noteq> []
   \<and> main noNumber 0 40 False [exampleRow (Some ''a@x.com'') None 10] [] = None"
proof -
  have acc: "fst (cleanValidate noNumber [exampleRow (Some ''a@x.com'') None 10]) \<noteq> []"
    by code_simp
  have a: "(1::int) \<le> 2" and b: "[1 :: nat] \<noteq> [] \<and> (0::int) \<le> 0" by simp_all
  note t1 = toBatches_terminates_iff_positive
    [of 2 "[1, 2, 3 :: nat]" noNumber 40 False "[exampleRow (Some ''a@x.com'') None 10]" "[]"]
  note t2 = toBatches_terminates_iff_positive
    [of 0 "[1 :: nat]" noNumber 40 False "[exampleRow (Some ''a@x.com'') None 10]" "[]"]
  have c1: "\<exists>bs. toBatches [1, 2, 3 :: nat] 2 = Some bs"
    using t1[THEN conjunct1] a by (rule mp)
  have c3: "\<exists>r. main noNumber 2 40 False [exampleRow (Some ''a@x.com'') None 10] [] = Some r"
    using t1[THEN conjunct2, THEN conjunct2, THEN conjunct1] a by (rule mp)
  have c2: "toBatches [1 :: nat] 0 = None"
    using t2[THEN conjunct2, THEN conjunct1] b by (rule mp)
  have c4: "main noNumber 0 40 False [exampleRow (Some ''a@x.com'') None 10] [] = None"
    using t2[THEN conjunct2, THEN conjunct2, THEN conjunct2] conjI[OF acc b[THEN conjunct2]]
    by (rule mp)
  show ?thesis
    by (intro conjI a c1 b[THEN conjunct1] b[THEN conjunct2] c2 c3 acc c4)
qed

section \<open>Validation, rejection and the upsert of the accepted records\<close>

lemma forEachRow_eq:
  "forEachRow N rs i cl er =
     (cl @ filter (\<lambda>c. validate c = []) (map (clean N) rs),
      er @ map (\<lambda>(j, r). (j, join (ascii ''; '') (validate (clean N r))))
             (filter (\<lambda>(j, r). validate (clean N r) \<noteq> []) (enumerate i rs)))"
  by (induction rs arbitrary: i cl er) (simp_all add: Let_def)

lemma cleanValidate_eq:
  "cleanValidate N rows =
     (filter (\<lambda>c. validate c = []) (map (clean N) rows),
      map (\<lambda>(j, r). (j, join (ascii ''; '') (validate (clean N r))))
        (filter (\<lambda>(j, r). validate (clean N r) \<noteq> []) (enumerate 0 rows)))"
  by (simp add: cleanValidate_def forEachRow_eq)

lemma transaction_append:
  "transaction (xs @ ys) s = (case transaction xs s of Inl e \<Rightarrow> Inl e | Inr s' \<Rightarrow> transaction ys s')"
  by (induction xs arbitrary: s) (simp_all split: sum.splits)

lemma upsertBatches_all:
  "transaction (concat bs) s = Inr s' \<Longrightarrow> upsertBatches bs s n = Inr (s', n + length (concat bs))"
proof (induction bs arbitrary: s n)
  case Nil
  then show ?case by simp
next
  case (Cons b bs)
  from Cons.prems obtain s1 where s1: "transaction b s = Inr s1" "transaction (concat bs) s1 = Inr s'"
    by (auto simp: transaction_append split: sum.splits)
  from Cons.IH[OF s1(2), of "n + length b"] s1(1) show ?case by simp
qed

lemma upsertBatches_fail:
  "transaction (concat bs) s = Inl e \<Longrightarrow> \<exists>s'. upsertBatches bs s n = Inl (e, s')"
proof (induction bs arbitrary: s n)
  case Nil
  then show ?case by simp
next
  case (Cons b bs)
  show ?case
  proof (cases "transaction b s")
    case (Inl e')
    with Cons.prems show ?thesis by (simp add: transaction_append)
  next
    case (Inr s1)
    with Cons.prems have "transaction (concat bs) s1 = Inl e" by (simp add: transaction_append)
    from Cons.IH[OF this, of "n + length b"] Inr show ?thesis by simp
  qed
qed

lemma main_upserts_accepted:
  assumes "1 \<le> B" "transaction (fst (cleanValidate N rows)) store = Inr s'"
  shows "main N B E False rows store =
           Some (Done s' (report E (fst (cleanValidate N rows)) (snd (cleanValidate N rows))
                   (length (fst (cleanValidate N rows)))))"
proof (cases "fst (cleanValidate N rows) = []")
  case True
  with assms(2) show ?thesis by (simp add: main_def Let_def)
next
  case False
  from toBatches_chunks[OF assms(1), of "fst (cleanValidate N rows)"]
  obtain bs where bs: "toBatches (fst (cleanValidate N rows)) B = Some bs"
    "concat bs = fst (cleanValidate N rows)" by blast
  from upsertBatches_all[of bs store s' 0] assms(2) bs(2)
  have "upsertBatches bs store 0 = Inr (s', length (fst (cleanValidate N rows)))" by simp
  with False bs(1) show ?thesis by (simp add: main_def Let_def)
qed


lemma main_aborts:
  assumes "1 \<le> B" "transaction (fst (cleanValidate N rows)) store = Inl e"
  shows "\<exists>s. main N B E False rows store = Some (Aborted e s)"
proof -
  from assms(2) have ne: "fst (cleanValidate N rows) \<noteq> []" by auto
  from toBatches_chunks[OF assms(1), of "fst (cleanValidate N rows)"]
  obtain bs where bs: "toBatches (fst (cleanValidate N rows)) B = Some bs"
    "concat bs = fst (cleanValidate N rows)" by blast
  from upsertBatches_fail[of bs store e 0] assms(2) bs(2)
  obtain s where "upsertBatches bs store 0 = Inl (e, s)" by auto
  with ne bs(1) show ?thesis by (simp add: main_def Let_def)
qed

lemma validate_missing_key:
  "\<not> truthy (NormalizedRecord.email c) \<Longrightarrow> \<not> truthy (NormalizedRecord.employeeNum c)
   \<Longrightarrow> ascii ''Missing unique key (email or employeeNum).'' \<in> set (validate c)"
  by (simp add: validate_def)

text \<open>
  C3: a record whose email and employeeNum are both absent or empty has the message
  about the missing unique key among its violations. The accepted records are the
  cleaned rows with no violation, in order; every other row is rejected with its index
  in the input and its messages joined by \<^verbatim>\<open>"; "\<close>. A rejection does not stop the
  run: with a batch size of at least 1, a run that is not dry upserts exactly the
  accepted records and counts them, and it aborts only if the store refuses one of
  them.
\<close>

theorem validate_rejects_without_halting:
  "(\<not> truthy (NormalizedRecord.email c) \<and> \<not> truthy (NormalizedRecord.employeeNum c)
      \<longrightarrow> ascii ''Missing unique key (email or employeeNum).'' \<in> set (validate c))
   \<and> fst (cleanValidate N rows) = filter (\<lambda>c. validate c = []) (map (clean N) rows)
   \<and> snd (cleanValidate N rows) =
       map (\<lambda>(j, r). (j, join (ascii ''; '') (validate (clean N r))))
         (filter (\<lambda>(j, r). validate (clean N r) \<noteq> []) (enumerate 0 rows))
   \<and> (1 \<le> B \<and> transaction (fst (cleanValidate N rows)) store = Inr s'
      \<longrightarrow> main N B E False rows store =
            Some (Done s' (report E (fst (cleanValidate N rows)) (snd (cleanValidate N rows))
                    (length (fst (cleanValidate N rows))))))
   \<and> (1 \<le> B \<and> transaction (fst (cleanValidate N rows)) store = Inl e
      \<longrightarrow> (\<exists>s. main N B E False rows store = Some (Aborted e s)))"
proof (intro conjI impI)
  assume "\<not> truthy (NormalizedRecord.email c) \<and> \<not> truthy (NormalizedRecord.employeeNum c)"
  then show "ascii ''Missing unique key (email or employeeNum).'' \<in> set (validate c)"
    by (simp add: validate_missing_key)
next
  show "fst (cleanValidate N rows) = filter (\<lambda>c. validate c = []) (map (clean N) rows)"
    by (simp add: cleanValidate_eq)
next
  show "snd (cleanValidate N rows) =
       map (\<lambda>(j, r). (j, join (ascii ''; '') (validate (clean N r))))
         (filter (\<lambda>(j, r). validate (clean N r) \<noteq> []) (enumerate 0 rows))"
    by (simp add: cleanValidate_eq)
next
  assume "1 \<le> B \<and> transaction (fst (cleanValidate N rows)) store = Inr s'"
  then show "main N B E False rows store =
            Some (Done s' (report E (fst (cleanValidate N rows)) (snd (cleanValidate N rows))
                    (length (fst (cleanValidate N rows)))))"
    using main_upserts_accepted by blast
next
  assume "1 \<le> B \<and> transaction (fst (cleanValidate N rows)) store = Inl e"
  then show "\<exists>s. main N B E False rows store = Some (Aborted e s)"
    using main_aborts by blast
qed


theorem validate_rejects_without_halting_witness:
  "\<not> truthy (NormalizedRecord.email (clean noNumber (exampleRow None None 30)))
   \<and> \<not> truthy (NormalizedRecord.employeeNum (clean noNumber (exampleRow None None 30)))
   \<and> ascii ''Missing unique key (email or employeeNum).''
       \<in> set (validate (clean noNumber (exampleRow None None 30)))
   \<and> snd (cleanValidate noNumber [exampleRow None None 30, exampleRow (Some ''a@x.com'') None 10]) =
       [(0, ascii ''Missing unique key (email or employeeNum).; hoursWorked per record > 24 is not allowed.'')]
   \<and> (1::int) \<le> 100
   \<and> transaction
        (fst (cleanValidate noNumber [exampleRow None None 30, exampleRow (Some ''a@x.com'') None 10])) [] =
       Inr [(exampleEmployee ''a@x.com'' None)\<lparr>hoursWorked := 10\<rparr>]
   \<and> main noNumber 100 40 False [exampleRow None None 30, exampleRow (Some ''a@x.com'') None 10] [] =
       Some (Done [(exampleEmployee ''a@x.com'' None)\<lparr>hoursWorked := 10\<rparr>]
         (report 40 [clean noNumber (exampleRow (Some ''a@x.com'') None 10)]
            [(0, ascii ''Missing unique key (email or employeeNum).; hoursWorked per record > 24 is not allowed.'')]
            1))
   \<and> transaction (fst (cleanValidate noNumber [exampleRow (Some ''a@x.com'') (Some ''7'') 10]))
        [exampleEmployee ''b@x.com'' (Some ''7'')] = Inl UniqueConstraint
   \<and> (\<exists>s. main noNumber 100 40 False [exampleRow (Some ''a@x.com'') (Some ''7'') 10]
             [exampleEmployee ''b@x.com'' (Some ''7'')] = Some (Aborted UniqueConstraint s))"
proof -
  let ?bad = "exampleRow None None 30" and ?good = "exampleRow (Some ''a@x.com'') None 10"
  let ?clash = "exampleRow (Some ''a@x.com'') (Some ''7'') 10"
  have k: "\<not> truthy (NormalizedRecord.email (clean noNumber ?bad))
           \<and> \<not> truthy (NormalizedRecord.employeeNum (clean noNumber ?bad))"
    by code_simp
  have b: "(1::int) \<le> 100" by simp
  have tr: "transaction (fst (cleanValidate noNumber [?bad, ?good])) [] =
              Inr [(exampleEmployee ''a@x.com'' None)\<lparr>hoursWorked := 10\<rparr>]"
    by code_simp
  have fl: "transaction (fst (cleanValidate noNumber [?clash])) [exampleEmployee ''b@x.com'' (Some ''7'')] =
              Inl UniqueConstraint"
    by code_simp
  have cl: "fst (cleanValidate noNumber [?bad, ?good]) = [clean noNumber ?good]"
    by code_simp
  have er: "snd (cleanValidate noNumber [?bad, ?good]) =
      [(0, ascii ''Missing unique key (email or employeeNum).; hoursWorked per record > 24 is not allowed.'')]"
    by code_simp
  note t = validate_rejects_without_halting
    [of "clean noNumber ?bad" noNumber "[?bad, ?good]" 100 "[]"
        "[(exampleEmployee ''a@x.com'' None)\<lparr>hoursWorked := 10\<rparr>]" 40 UniqueConstraint]
  note u = validate_rejects_without_halting
    [of "clean noNumber ?bad" noNumber "[?clash]" 100 "[exampleEmployee ''b@x.com'' (Some ''7'')]"
        "[]" 40 UniqueConstraint]
  have c1: "ascii ''Missing unique key (email or employeeNum).'' \<in> set (validate (clean noNumber ?bad))"
    using t[THEN conjunct1] k by (rule mp)
  have c4: "main noNumber 100 40 False [?bad, ?good] [] =
       Some (Done [(exampleEmployee ''a@x.com'' None)\<lparr>hoursWorked := 10\<rparr>]
         (report 40 (fst (cleanValidate noNumber [?bad, ?good]))
            (snd (cleanValidate noNumber [?bad, ?good]))
            (length (fst (cleanValidate noNumber [?bad, ?good])))))"
    using t[THEN conjunct2, THEN conjunct2, THEN conjunct2, THEN conjunct1] conjI[OF b tr]
    by (rule mp)
  have c5: "\<exists>s. main noNumber 100 40 False [?clash] [exampleEmployee ''b@x.com'' (Some ''7'')] =
              Some (Aborted UniqueConstraint s)"
    using u[THEN conjunct2, THEN conjunct2, THEN conjunct2, THEN conjunct2] conjI[OF b fl]
    by (rule mp)
  from c4 have c4': "main noNumber 100 40 False [?bad, ?good] [] =
       Some (Done [(exampleEmployee ''a@x.com'' None)\<lparr>hoursWorked := 10\<rparr>]
         (report 40 [clean noNumber ?good]
            [(0, ascii ''Missing unique key (email or employeeNum).; hoursWorked per record > 24 is not allowed.'')]
            1))"
    by (simp only: cl er list.size One_nat_def add_0)
  show ?thesis
    by (intro conjI k[THEN conjunct1] k[THEN conjunct2] c1 er b tr c4' fl c5)
qed

section \<open>Normalisation\<close>

lemma trim_decomp:
  "\<exists>pre post. s = pre @ trim s @ post \<and> list_all isStrWhiteSpace pre \<and> list_all isStrWhiteSpace post"
proof -
  let ?W = isStrWhiteSpace
  let ?t = "dropWhile ?W s"
  have 1: "s = takeWhile ?W s @ ?t" by simp
  have "?t = rev (takeWhile ?W (rev ?t) @ dropWhile ?W (rev ?t))"
    by (simp only: takeWhile_dropWhile_id rev_rev_ident)
  then have 2: "?t = trim s @ rev (takeWhile ?W (rev ?t))"
    by (simp only: rev_append trim_def)
  have a: "list_all ?W (takeWhile ?W s)" by (simp add: list_all_iff) (meson set_takeWhileD)
  have b: "list_all ?W (rev (takeWhile ?W (rev ?t)))" by (simp add: list_all_iff) (meson set_takeWhileD)
  from 1 2 have "s = takeWhile ?W s @ trim s @ rev (takeWhile ?W (rev ?t))" by simp
  with a b show ?thesis by blast
qed
























section \<open>Empty strings\<close>

lemma toLowerCase_Nil: "toLowerCase [] = []"
  by (simp add: toLowerCase_def)

lemma missing_key_iff:
  "ascii ''Missing unique key (email or employeeNum).'' \<in> set (validate c)
     \<longleftrightarrow> \<not> truthy (NormalizedRecord.email c) \<and> \<not> truthy (NormalizedRecord.employeeNum c)"
  by (simp add: validate_def ascii_def)

text \<open>
  C8, as amended: a department that is empty after the trim becomes null, while an
  email, employeeNum, firstName or lastName that is empty after the trim stays the
  empty string. An empty firstName or lastName then fails validation. An empty email
  fails validation exactly when the employeeNum is absent or empty as well: with an
  employeeNum present the rule of the unique key is met.
\<close>

theorem empty_strings_asymmetry:
  "(\<forall>s. Row.department r = Value s \<and> trim s = [] \<longrightarrow> NormalizedRecord.department (clean N r) = None)
   \<and> (\<forall>s. Row.email r = Some s \<and> trim s = [] \<longrightarrow> NormalizedRecord.email (clean N r) = Some [])
   \<and> (\<forall>s. Row.employeeNum r = Some s \<and> trim s = []
          \<longrightarrow> NormalizedRecord.employeeNum (clean N r) = Some [])
   \<and> (\<forall>s. Row.firstName r = Some s \<and> trim s = []
          \<longrightarrow> NormalizedRecord.firstName (clean N r) = Some [])
   \<and> (\<forall>s. Row.lastName r = Some s \<and> trim s = []
          \<longrightarrow> NormalizedRecord.lastName (clean N r) = Some [])
   \<and> (NormalizedRecord.firstName (clean N r) = Some []
          \<longrightarrow> ascii ''Missing firstName.'' \<in> set (validate (clean N r)))
   \<and> (NormalizedRecord.lastName (clean N r) = Some []
          \<longrightarrow> ascii ''Missing lastName.'' \<in> set (validate (clean N r)))
   \<and> (NormalizedRecord.email (clean N r) = Some [] \<and> \<not> truthy (NormalizedRecord.employeeNum (clean N r))
          \<longrightarrow> ascii ''Missing unique key (email or employeeNum).'' \<in> set (validate (clean N r)))
   \<and> (NormalizedRecord.email (clean N r) = Some [] \<and> truthy (NormalizedRecord.employeeNum (clean N r))
          \<longrightarrow> ascii ''Missing unique key (email or employeeNum).'' \<notin> set (validate (clean N r)))"
proof (intro conjI allI impI)
  fix s assume "Row.department r = Value s \<and> trim s = []"
  then show "NormalizedRecord.department (clean N r) = None"
    by (simp add: clean_def truthy_def)
next
  fix s assume "Row.email r = Some s \<and> trim s = []"
  then show "NormalizedRecord.email (clean N r) = Some []"
    by (simp add: clean_def trimOpt_def toLowerCase_Nil)
next
  fix s assume "Row.employeeNum r = Some s \<and> trim s = []"
  then show "NormalizedRecord.employeeNum (clean N r) = Some []"
    by (simp add: clean_def trimOpt_def)
next
  fix s assume "Row.firstName r = Some s \<and> trim s = []"
  then show "NormalizedRecord.firstName (clean N r) = Some []"
    by (simp add: clean_def trimOpt_def)
next
  fix s assume "Row.lastName r = Some s \<and> trim s = []"
  then show "NormalizedRecord.lastName (clean N r) = Some []"
    by (simp add: clean_def trimOpt_def)
next
  assume "NormalizedRecord.firstName (clean N r) = Some []"
  then show "ascii ''Missing firstName.'' \<in> set (validate (clean N r))"
    by (simp add: validate_def truthy_def)
next
  assume "NormalizedRecord.lastName (clean N r) = Some []"
  then show "ascii ''Missing lastName.'' \<in> set (validate (clean N r))"
    by (simp add: validate_def truthy_def)
next
  assume "NormalizedRecord.email (clean N r) = Some [] \<and> \<not> truthy (NormalizedRecord.employeeNum (clean N r))"
  then show "ascii ''Missing unique key (email or employeeNum).'' \<in> set (validate (clean N r))"
    by (simp add: missing_key_iff truthy_def)
next
  assume "NormalizedRecord.email (clean N r) = Some [] \<and> truthy (NormalizedRecord.employeeNum (clean N r))"
  then show "ascii ''Missing unique key (email or employeeNum).'' \<notin> set (validate (clean N r))"
    by (simp add: missing_key_iff)
qed

theorem empty_strings_asymmetry_witness:
  "NormalizedRecord.email (clean noNumber (exampleRow (Some ''  '') (Some ''E1'') 8)) = Some []
   \<and> ascii ''Missing unique key (email or employeeNum).''
        \<notin> set (validate (clean noNumber (exampleRow (Some ''  '') (Some ''E1'') 8)))
   \<and> NormalizedRecord.employeeNum (clean noNumber (exampleRow (Some ''  '') (Some '' '') 8)) = Some []
   \<and> ascii ''Missing unique key (email or employeeNum).''
        \<in> set (validate (clean noNumber (exampleRow (Some ''  '') (Some '' '') 8)))
   \<and> NormalizedRecord.department
        (clean noNumber ((exampleRow None (Some ''E1'') 8)\<lparr>Row.department := Value (ascii '' '')\<rparr>)) = None
   \<and> NormalizedRecord.firstName
        (clean noNumber ((exampleRow None (Some ''E1'') 8)\<lparr>Row.firstName := Some (ascii '' '')\<rparr>)) = Some []
   \<and> ascii ''Missing firstName.''
        \<in> set (validate (clean noNumber ((exampleRow None (Some ''E1'') 8)\<lparr>Row.firstName := Some (ascii '' '')\<rparr>)))
   \<and> NormalizedRecord.lastName
        (clean noNumber ((exampleRow None (Some ''E1'') 8)\<lparr>Row.lastName := Some (ascii '' '')\<rparr>)) = Some []
   \<and> ascii ''Missing lastName.''
        \<in> set (validate (clean noNumber ((exampleRow None (Some ''E1'') 8)\<lparr>Row.lastName := Some (ascii '' '')\<rparr>)))"
proof -
  let ?blank = "exampleRow (Some ''  '') (Some ''E1'') 8"
  let ?both = "exampleRow (Some ''  '') (Some '' '') 8"
  let ?dep = "(exampleRow None (Some ''E1'') 8)\<lparr>Row.department := Value (ascii '' '')\<rparr>"
  let ?fst = "(exampleRow None (Some ''E1'') 8)\<lparr>Row.firstName := Some (ascii '' '')\<rparr>"
  let ?lst = "(exampleRow None (Some ''E1'') 8)\<lparr>Row.lastName := Some (ascii '' '')\<rparr>"
  have sp1: "trim (ascii '' '') = []" and sp2: "trim (ascii ''  '') = []" by code_simp+
  have e: "NormalizedRecord.email (clean noNumber ?blank) = Some []"
    using empty_strings_asymmetry[of ?blank noNumber, THEN conjunct2, THEN conjunct1, THEN spec, of "ascii ''  ''"] sp2
    by (simp add: exampleRow_def)
  have tr: "truthy (NormalizedRecord.employeeNum (clean noNumber ?blank))" by code_simp
  have k: "ascii ''Missing unique key (email or employeeNum).'' \<notin> set (validate (clean noNumber ?blank))"
    using empty_strings_asymmetry[of ?blank noNumber, THEN conjunct2, THEN conjunct2, THEN conjunct2, THEN conjunct2, THEN conjunct2, THEN conjunct2, THEN conjunct2, THEN conjunct2] conjI[OF e tr] by (rule mp)
  have n: "NormalizedRecord.employeeNum (clean noNumber ?both) = Some []"
    using empty_strings_asymmetry[of ?both noNumber, THEN conjunct2, THEN conjunct2, THEN conjunct1, THEN spec, of "ascii '' ''"] sp1
    by (simp add: exampleRow_def)
  have e2: "NormalizedRecord.email (clean noNumber ?both) = Some []"
    using empty_strings_asymmetry[of ?both noNumber, THEN conjunct2, THEN conjunct1, THEN spec, of "ascii ''  ''"] sp2
    by (simp add: exampleRow_def)
  from n have nt: "\<not> truthy (NormalizedRecord.employeeNum (clean noNumber ?both))"
    by (simp add: truthy_def)
  have k2: "ascii ''Missing unique key (email or employeeNum).'' \<in> set (validate (clean noNumber ?both))"
    using empty_strings_asymmetry[of ?both noNumber, THEN conjunct2, THEN conjunct2, THEN conjunct2, THEN conjunct2, THEN conjunct2, THEN conjunct2, THEN conjunct2, THEN conjunct1] conjI[OF e2 nt] by (rule mp)
  have d: "NormalizedRecord.department (clean noNumber ?dep) = None"
    using empty_strings_asymmetry[of ?dep noNumber, THEN conjunct1, THEN spec, of "ascii '' ''"] sp1
    by (simp add: exampleRow_def)
  have f: "NormalizedRecord.firstName (clean noNumber ?fst) = Some []"
    using empty_strings_asymmetry[of ?fst noNumber, THEN conjunct2, THEN conjunct2, THEN conjunct2, THEN conjunct1, THEN spec, of "ascii '' ''"] sp1
    by (simp add: exampleRow_def)
  have fv: "ascii ''Missing firstName.'' \<in> set (validate (clean noNumber ?fst))"
    using empty_strings_asymmetry[of ?fst noNumber, THEN conjunct2, THEN conjunct2, THEN conjunct2, THEN conjunct2, THEN conjunct2, THEN conjunct1] f by (rule mp)
  have l: "NormalizedRecord.lastName (clean noNumber ?lst) = Some []"
    using empty_strings_asymmetry[of ?lst noNumber, THEN conjunct2, THEN conjunct2, THEN conjunct2, THEN conjunct2, THEN conjunct1, THEN spec, of "ascii '' ''"] sp1
    by (simp add: exampleRow_def)
  have lv: "ascii ''Missing lastName.'' \<in> set (validate (clean noNumber ?lst))"
    using empty_strings_asymmetry[of ?lst noNumber, THEN conjunct2, THEN conjunct2, THEN conjunct2, THEN conjunct2, THEN conjunct2, THEN conjunct2, THEN conjunct1] l by (rule mp)
  show ?thesis by (intro conjI e k n k2 d f fv l lv)
qed

text \<open>
  The claim as first stated, that an empty email fails validation, does not hold: the
  row with a blank email, the employee number E1, both names and 8 hours is cleaned to
  a record with the empty email and has no violation.
\<close>

theorem empty_email_accepted_counterexample:
  "Row.email (exampleRow (Some ''  '') (Some ''E1'') 8) = Some (ascii ''  '')
   \<and> trim (ascii ''  '') = []
   \<and> NormalizedRecord.email (clean noNumber (exampleRow (Some ''  '') (Some ''E1'') 8)) = Some []
   \<and> validate (clean noNumber (exampleRow (Some ''  '') (Some ''E1'') 8)) = []"
  by code_simp

section \<open>The weekly summary groups by identity key\<close>






















section \<open>The status of a weekly entry\<close>










section \<open>The dry run\<close>

lemma report_fields:
  "success (report E cl errs n) = n"
  "entries (report E cl errs n) = weeklySummary E cl"
  "pass (report E cl errs n) = length (filter (\<lambda>e. status e = PASS) (weeklySummary E cl))"
  "warn (report E cl errs n) = length (filter (\<lambda>e. status e = WARN) (weeklySummary E cl))"
  "fail (report E cl errs n) = length (filter (\<lambda>e. status e = FAIL) (weeklySummary E cl))"
  by (simp_all add: report_def Let_def)

lemma main_dry:
  assumes "dry \<or> fst (cleanValidate N rows) = []"
  shows "main N B E dry rows store =
           Some (Done store (report E (fst (cleanValidate N rows)) (snd (cleanValidate N rows)) 0))"
  using assms by (auto simp: main_def Let_def)

lemma main_done_report:
  assumes "main N B E False rows store = Some (Done s rep)"
  shows "\<exists>n. rep = report E (fst (cleanValidate N rows)) (snd (cleanValidate N rows)) n"
  using assms by (auto simp: main_def Let_def split: if_splits option.splits sum.splits prod.splits)

text \<open>
  C9: when the run is dry, or no record is accepted, the upsert stage is skipped: the
  run completes, the store is as it was and the count of upserted records is 0, and the
  summary is made from the accepted records. Every run that is not dry and completes
  reports the same entries and the same tally of PASS, WARN and FAIL as the dry run on
  the same rows: the summary does not depend on the flag.
\<close>

theorem dry_run_only_skips_upsert:
  "(dry \<or> fst (cleanValidate N rows) = [] \<longrightarrow>
      (\<exists>rep. main N B E dry rows store = Some (Done store rep) \<and> success rep = 0
         \<and> entries rep = weeklySummary E (fst (cleanValidate N rows))))
   \<and> (\<forall>s rep. main N B E False rows store = Some (Done s rep) \<longrightarrow>
        (\<exists>rep'. main N B E True rows store = Some (Done store rep') \<and> success rep' = 0
           \<and> entries rep' = entries rep \<and> pass rep' = pass rep \<and> warn rep' = warn rep
           \<and> fail rep' = fail rep))"
proof (intro conjI allI impI)
  assume "dry \<or> fst (cleanValidate N rows) = []"
  from main_dry[OF this, of B E store]
  show "\<exists>rep. main N B E dry rows store = Some (Done store rep) \<and> success rep = 0
         \<and> entries rep = weeklySummary E (fst (cleanValidate N rows))"
    by (simp add: report_fields)
next
  fix s rep assume "main N B E False rows store = Some (Done s rep)"
  from main_done_report[OF this] obtain n where
    rep: "rep = report E (fst (cleanValidate N rows)) (snd (cleanValidate N rows)) n" ..
  have "main N B E True rows store =
           Some (Done store (report E (fst (cleanValidate N rows)) (snd (cleanValidate N rows)) 0))"
    by (rule main_dry) simp
  then show "\<exists>rep'. main N B E True rows store = Some (Done store rep') \<and> success rep' = 0
           \<and> entries rep' = entries rep \<and> pass rep' = pass rep \<and> warn rep' = warn rep
           \<and> fail rep' = fail rep"
    by (simp add: rep report_fields)
qed

theorem dry_run_only_skips_upsert_witness:
  "main noNumber 100 40 False weekRows [] =
     Some (Done [(exampleEmployee ''a@x.com'' None)\<lparr>hoursWorked := 20\<rparr>,
                 (exampleEmployee ''b@x.com'' None)\<lparr>hoursWorked := 1999 / 100\<rparr>,
                 (exampleEmployee ''7@placeholder.local'' (Some ''7''))]
            (report 40 (fst (cleanValidate noNumber weekRows)) [] 5))
   \<and> (\<exists>rep'. main noNumber 100 40 True weekRows [] = Some (Done [] rep') \<and> success rep' = 0
         \<and> entries rep' = entries (report 40 (fst (cleanValidate noNumber weekRows)) [] 5)
         \<and> pass rep' = pass (report 40 (fst (cleanValidate noNumber weekRows)) [] 5)
         \<and> warn rep' = warn (report 40 (fst (cleanValidate noNumber weekRows)) [] 5)
         \<and> fail rep' = fail (report 40 (fst (cleanValidate noNumber weekRows)) [] 5))
   \<and> (\<exists>rep. main noNumber 100 40 True weekRows [] = Some (Done [] rep) \<and> success rep = 0
         \<and> entries rep = weeklySummary 40 (fst (cleanValidate noNumber weekRows)))"
proof -
  let ?s = "[(exampleEmployee ''a@x.com'' None)\<lparr>hoursWorked := 20\<rparr>,
             (exampleEmployee ''b@x.com'' None)\<lparr>hoursWorked := 1999 / 100\<rparr>,
             (exampleEmployee ''7@placeholder.local'' (Some ''7''))]"
  let ?rep = "report 40 (fst (cleanValidate noNumber weekRows)) [] 5"
  note t = dry_run_only_skips_upsert[of True noNumber weekRows 100 40 "[]"]
  have wet: "main noNumber 100 40 False weekRows [] = Some (Done ?s ?rep)"
    by code_simp
  have c2: "\<exists>rep'. main noNumber 100 40 True weekRows [] = Some (Done [] rep') \<and> success rep' = 0
         \<and> entries rep' = entries ?rep \<and> pass rep' = pass ?rep \<and> warn rep' = warn ?rep
         \<and> fail rep' = fail ?rep"
    using t[THEN conjunct2, THEN spec, THEN spec, of ?s ?rep] wet by (rule mp)
  have d: "True \<or> fst (cleanValidate noNumber weekRows) = []" by simp
  have c1: "\<exists>rep. main noNumber 100 40 True weekRows [] = Some (Done [] rep) \<and> success rep = 0
         \<and> entries rep = weeklySummary 40 (fst (cleanValidate noNumber weekRows))"
    using t[THEN conjunct1] d by (rule mp)
  show ?thesis by (intro conjI wet c2 c1)
qed

section \<open>The upsert on the two identity paths\<close>

text \<open>
  What does hold of the two paths: an upsert by a non-empty email changes no stored
  email and appends that email when it is new; an upsert of a record whose email is
  \<^verbatim>\<open>undefined\<close> goes by the employeeNum, changes no stored email, and appends the
  placeholder email when the number is new.
\<close>

lemma find_replaceFirst:
  "find P xs = Some old \<Longrightarrow> P y \<Longrightarrow> find P (replaceFirst P y xs) = Some y"
  by (induction xs) (auto split: if_splits)

lemma replaceFirst_same: "find P xs = Some y \<Longrightarrow> replaceFirst P y xs = xs"
  by (induction xs) (auto split: if_splits)

lemma remove1_replaceFirst:
  "find P xs = Some old \<Longrightarrow> P y \<Longrightarrow> remove1 y (replaceFirst P y xs) = remove1 old xs"
proof (induction xs)
  case Nil
  then show ?case by simp
next
  case (Cons x xs)
  show ?case
  proof (cases "P x")
    case True
    with Cons.prems show ?thesis by simp
  next
    case False
    with Cons.prems have f: "find P xs = Some old" by simp
    then have "P old" by (auto simp: find_Some_iff)
    with False have "old \<noteq> x" by auto
    moreover from False Cons.prems(2) have "y \<noteq> x" by auto
    ultimately show ?thesis using False Cons.IH[OF f Cons.prems(2)] by simp
  qed
qed

lemma map_replaceFirst:
  "find P xs = Some old \<Longrightarrow> f y = f old \<Longrightarrow> map f (replaceFirst P y xs) = map f xs"
  by (induction xs) (auto split: if_splits)

lemma find_append_new: "find P xs = None \<Longrightarrow> P y \<Longrightarrow> find P (xs @ [y]) = Some y"
  by (induction xs) (auto split: if_splits)

lemma createData_Some:
  "createData e n c = Some new \<Longrightarrow>
     Employee.email new = e \<and> Employee.employeeNum new = n
     \<and> NormalizedRecord.firstName c = Some (Employee.firstName new)
     \<and> NormalizedRecord.lastName c = Some (Employee.lastName new)
     \<and> Employee.department new = NormalizedRecord.department c
     \<and> Employee.role new = NormalizedRecord.role c
     \<and> Employee.hoursWorked new = NormalizedRecord.hoursWorked c
     \<and> Employee.active new = NormalizedRecord.active c"
  by (auto simp: createData_def split: option.splits)

lemma email_path_keeps_emails:
  assumes "NormalizedRecord.email c = Some e" "e \<noteq> []" "upsertEmployee c store = Inr s'"
  shows "map Employee.email s' =
           (case find (\<lambda>r. Employee.email r = e) store of
              Some old \<Rightarrow> map Employee.email store
            | None \<Rightarrow> map Employee.email store @ [e])"
proof (cases "find (\<lambda>r. Employee.email r = e) store")
  case None
  with assms show ?thesis
    by (auto simp: upsertEmployee_def truthy_def upsertRow_def dest: createData_Some
        split: option.splits if_splits)
next
  case (Some old)
  from assms Some obtain new where "s' = replaceFirst (\<lambda>r. Employee.email r = e) new store"
    "Employee.email new = Employee.email old"
    by (auto simp: upsertEmployee_def truthy_def upsertRow_def Let_def split: if_splits)
  with map_replaceFirst[OF Some, of Employee.email new] Some show ?thesis by simp
qed

lemma employeeNum_path_undefined_email:
  assumes "NormalizedRecord.email c = None" "upsertEmployee c store = Inr s'"
  shows "\<exists>n. NormalizedRecord.employeeNum c = Some n
           \<and> map Employee.email s' =
               (case find (\<lambda>r. Employee.employeeNum r = Some n) store of
                  Some old \<Rightarrow> map Employee.email store
                | None \<Rightarrow> map Employee.email store @ [n @ ascii ''@placeholder.local''])"
proof -
  from assms obtain n where n: "NormalizedRecord.employeeNum c = Some n"
    by (auto simp: upsertEmployee_def truthy_def split: option.splits)
  let ?wh = "\<lambda>r. Employee.employeeNum r = Some n"
  have "map Employee.email s' =
               (case find ?wh store of
                  Some old \<Rightarrow> map Employee.email store
                | None \<Rightarrow> map Employee.email store @ [n @ ascii ''@placeholder.local''])"
  proof (cases "find ?wh store")
    case None
    with assms n show ?thesis
      by (auto simp: upsertEmployee_def truthy_def upsertRow_def orKeep_def dest: createData_Some
          split: option.splits if_splits)
  next
    case (Some old)
    from assms n Some obtain new where "s' = replaceFirst ?wh new store"
      "Employee.email new = Employee.email old"
      by (auto simp: upsertEmployee_def truthy_def upsertRow_def Let_def orKeep_def split: if_splits)
    with map_replaceFirst[OF Some, of Employee.email new] Some show ?thesis by simp
  qed
  with n show ?thesis by blast
qed

text \<open>
  C7: the claim is that a record with an email is upserted by its email and any other
  by its employeeNum, that on the employeeNum path the placeholder email is made only
  for a new row, and that an update on that path never overwrites a stored email. The
  source decides the path by the truthiness of the email but writes the email with
  \<^verbatim>\<open>c.email ?? undefined\<close>, and the empty string is falsy without being nullish. A
  row with a blank email and the employee number E1 is accepted and cleaned to the
  empty email; upserted into a store that holds E1 with the email e1@corp.com it
  replaces that email by the empty string, and upserted into an empty store it creates
  the row with the empty email, not with the placeholder.
\<close>

theorem blank_email_overwrites_stored_email:
  "fst (cleanValidate noNumber [exampleRow (Some ''  '') (Some ''E1'') 8]) =
     [clean noNumber (exampleRow (Some ''  '') (Some ''E1'') 8)]
   \<and> NormalizedRecord.email (clean noNumber (exampleRow (Some ''  '') (Some ''E1'') 8)) = Some []
   \<and> upsertEmployee (clean noNumber (exampleRow (Some ''  '') (Some ''E1'') 8))
        [exampleEmployee ''e1@corp.com'' (Some ''E1'')] =
       Inr [(exampleEmployee '''' (Some ''E1''))\<lparr>hoursWorked := 8\<rparr>]
   \<and> upsertEmployee (clean noNumber (exampleRow (Some ''  '') (Some ''E1'') 8)) [] =
       Inr [(exampleEmployee '''' (Some ''E1''))\<lparr>hoursWorked := 8\<rparr>]
   \<and> main noNumber 100 40 False [exampleRow (Some ''  '') (Some ''E1'') 8]
        [exampleEmployee ''e1@corp.com'' (Some ''E1'')] =
       Some (Done [(exampleEmployee '''' (Some ''E1''))\<lparr>hoursWorked := 8\<rparr>]
         (report 40 [clean noNumber (exampleRow (Some ''  '') (Some ''E1'') 8)] [] 1))"
  by code_simp

section \<open>Running the upsert twice\<close>

text \<open>
  What does hold: the upsert of one record is idempotent. If it succeeds, doing it
  again on the store it left succeeds and changes nothing.
\<close>

lemma upsertRow_idempotent:
  assumes ok: "upsertRow wh upd cre s = Inr s'"
    and keep: "\<And>r. wh r \<Longrightarrow> wh (upd r) \<and> upd (upd r) = upd r"
    and made: "\<And>new. cre = Some new \<Longrightarrow> wh new \<and> upd new = new"
  shows "upsertRow wh upd cre s' = Inr s'"
proof (cases "find wh s")
  case (Some old)
  then have w: "wh old" by (auto simp: find_Some_iff)
  from ok Some have nc: "\<not> list_ex (conflicts (upd old)) (remove1 old s)"
    and s': "s' = replaceFirst wh (upd old) s"
    by (auto simp: upsertRow_def Let_def split: if_splits)
  from keep[OF w] have k: "wh (upd old)" "upd (upd old) = upd old" by simp_all
  have f: "find wh s' = Some (upd old)" unfolding s' by (rule find_replaceFirst[OF Some k(1)])
  have r: "remove1 (upd old) s' = remove1 old s" unfolding s' by (rule remove1_replaceFirst[OF Some k(1)])
  have "replaceFirst wh (upd old) s' = s'" by (rule replaceFirst_same[OF f])
  with f r nc k(2) show ?thesis by (simp add: upsertRow_def Let_def)
next
  case None
  with ok obtain new where c: "cre = Some new" and nc: "\<not> list_ex (conflicts new) s"
    and s': "s' = s @ [new]"
    by (auto simp: upsertRow_def split: option.splits if_splits)
  from made[OF c] have m: "wh new" "upd new = new" by simp_all
  have f: "find wh s' = Some new" unfolding s' by (rule find_append_new[OF None m(1)])
  from None m(1) have "new \<notin> set s" by (auto simp: find_None_iff)
  then have r: "remove1 new s' = s" unfolding s' by (simp add: remove1_append remove1_idem)
  have "replaceFirst wh new s' = s'" by (rule replaceFirst_same[OF f])
  with f r nc m(2) show ?thesis by (simp add: upsertRow_def Let_def)
qed

lemma upsertEmployee_idempotent:
  assumes "upsertEmployee c s = Inr s'"
  shows "upsertEmployee c s' = Inr s'"
proof (cases "truthy (NormalizedRecord.email c)")
  case True
  then obtain e where e: "NormalizedRecord.email c = Some e" by (auto simp: truthy_def split: option.splits)
  let ?wh = "\<lambda>r. Employee.email r = e"
  let ?upd = "\<lambda>r. r\<lparr> firstName := orKeep (NormalizedRecord.firstName c) (Employee.firstName r),
                    lastName := orKeep (NormalizedRecord.lastName c) (Employee.lastName r),
                    department := NormalizedRecord.department c,
                    role := NormalizedRecord.role c,
                    hoursWorked := NormalizedRecord.hoursWorked c,
                    active := NormalizedRecord.active c,
                    employeeNum := (case NormalizedRecord.employeeNum c of
                                      None \<Rightarrow> Employee.employeeNum r
                                    | Some n \<Rightarrow> Some n) \<rparr>"
  let ?cre = "createData e (NormalizedRecord.employeeNum c) c"
  have eq: "upsertEmployee c t = upsertRow ?wh ?upd ?cre t" for t
    using True e by (simp add: upsertEmployee_def)
  have "upsertRow ?wh ?upd ?cre s' = Inr s'"
  proof (rule upsertRow_idempotent)
    show "upsertRow ?wh ?upd ?cre s = Inr s'" using assms by (simp only: eq)
  next
    fix r assume "Employee.email r = e"
    then show "Employee.email (?upd r) = e \<and> ?upd (?upd r) = ?upd r"
      by (simp add: orKeep_def split: option.splits)
  next
    fix new assume "?cre = Some new"
    from createData_Some[OF this]
    show "Employee.email new = e \<and> ?upd new = new"
      by (simp add: orKeep_def split: option.splits)
  qed
  then show ?thesis by (simp only: eq)
next
  case False
  with assms obtain n where n: "NormalizedRecord.employeeNum c = Some n"
    by (auto simp: upsertEmployee_def split: option.splits)
  let ?wh = "\<lambda>r. Employee.employeeNum r = Some n"
  let ?upd = "\<lambda>r. r\<lparr> firstName := orKeep (NormalizedRecord.firstName c) (Employee.firstName r),
                         lastName := orKeep (NormalizedRecord.lastName c) (Employee.lastName r),
                         department := NormalizedRecord.department c,
                         role := NormalizedRecord.role c,
                         hoursWorked := NormalizedRecord.hoursWorked c,
                         active := NormalizedRecord.active c,
                         email := orKeep (NormalizedRecord.email c) (Employee.email r) \<rparr>"
  let ?cre = "createData (orKeep (NormalizedRecord.email c) (n @ ascii ''@placeholder.local''))
                    (Some n) c"
  have eq: "upsertEmployee c t = upsertRow ?wh ?upd ?cre t" for t
    using False n by (simp add: upsertEmployee_def)
  have "upsertRow ?wh ?upd ?cre s' = Inr s'"
  proof (rule upsertRow_idempotent)
    show "upsertRow ?wh ?upd ?cre s = Inr s'" using assms by (simp only: eq)
  next
    fix r assume "Employee.employeeNum r = Some n"
    then show "Employee.employeeNum (?upd r) = Some n \<and> ?upd (?upd r) = ?upd r"
      by (simp add: orKeep_def split: option.splits)
  next
    fix new assume "?cre = Some new"
    from createData_Some[OF this]
    show "Employee.employeeNum new = Some n \<and> ?upd new = new"
      by (simp add: orKeep_def split: option.splits)
  qed
  then show ?thesis by (simp only: eq)
qed

text \<open>
  C1: the claim is that upserting the same accepted records twice leaves the store as
  upserting them once does. The store holds one employee, a@x.com with the number 1.
  The rows are a record with the number 1 and no email, and a record with the email
  a@x.com and the number 2; both are accepted. The first run updates the stored row
  twice and leaves one row, a@x.com with the number 2. The second run no longer finds
  the number 1 and creates a second row, 1@placeholder.local.
\<close>

theorem second_run_adds_a_row:
  "snd (cleanValidate noNumber
          [exampleRow None (Some ''1'') 5, exampleRow (Some ''a@x.com'') (Some ''2'') 6]) = []
   \<and> main noNumber 100 40 False
        [exampleRow None (Some ''1'') 5, exampleRow (Some ''a@x.com'') (Some ''2'') 6]
        [exampleEmployee ''a@x.com'' (Some ''1'')] =
       Some (Done [(exampleEmployee ''a@x.com'' (Some ''2''))\<lparr>hoursWorked := 6\<rparr>]
         (report 40
            (fst (cleanValidate noNumber
               [exampleRow None (Some ''1'') 5, exampleRow (Some ''a@x.com'') (Some ''2'') 6]))
            [] 2))
   \<and> main noNumber 100 40 False
        [exampleRow None (Some ''1'') 5, exampleRow (Some ''a@x.com'') (Some ''2'') 6]
        [(exampleEmployee ''a@x.com'' (Some ''2''))\<lparr>hoursWorked := 6\<rparr>] =
       Some (Done [(exampleEmployee ''a@x.com'' (Some ''2''))\<lparr>hoursWorked := 6\<rparr>,
                   (exampleEmployee ''1@placeholder.local'' (Some ''1''))\<lparr>hoursWorked := 5\<rparr>]
         (report 40
            (fst (cleanValidate noNumber
               [exampleRow None (Some ''1'') 5, exampleRow (Some ''a@x.com'') (Some ''2'') 6]))
            [] 2))"
  by code_simp

end
